theory Spec2Isabelle
  imports Main "HOL-Library.Multiset"
begin

section \<open>Values that cross the HTTP and database boundaries\<close>

text \<open>
  The handlers of \<^verbatim>\<open>server.js\<close> read \<^verbatim>\<open>title\<close> and \<^verbatim>\<open>text\<close> from a JSON request
  body and test them with JavaScript truthiness. A body field is \<open>None\<close> when it is
  \<^verbatim>\<open>undefined\<close> (no such property, or no body) and otherwise one of the JSON scalars.
  Numbers are integers here; nested objects and arrays in a request are outside the model.
\<close>

datatype jsval = JNull | JBool bool | JNum int | JStr string

fun truthy :: "jsval option \<Rightarrow> bool" where
  "truthy None = False"
| "truthy (Some JNull) = False"
| "truthy (Some (JBool b)) = b"
| "truthy (Some (JNum n)) = (n \<noteq> 0)"
| "truthy (Some (JStr s)) = (s \<noteq> [])"

text \<open>
  \<^verbatim>\<open>admin.database.ServerValue.TIMESTAMP\<close> is a placeholder object that the database
  replaces by its own clock when the write is accepted. A \<^verbatim>\<open>ts\<close> property of a message
  object built by the server is that placeholder; a number is the only other thing the
  database would store there.
\<close>

datatype tsval = TIMESTAMP | Millis int

fun resolve :: "int \<Rightarrow> tsval \<Rightarrow> int" where
  "resolve now TIMESTAMP = now"
| "resolve now (Millis n) = n"

text \<open>\<^verbatim>\<open>x || 0\<close> on a number that may be missing: \<^verbatim>\<open>undefined\<close> and \<^verbatim>\<open>0\<close> both give 0.\<close>

fun or_zero :: "int option \<Rightarrow> int" where
  "or_zero None = 0"
| "or_zero (Some n) = n"

text \<open>Truthiness of a string property that may be missing: present and not empty.\<close>

fun truthy_str :: "string option \<Rightarrow> bool" where
  "truthy_str None = False"
| "truthy_str (Some s) = (s \<noteq> [])"

section \<open>The data held in the Realtime Database\<close>

text \<open>
  Layout, from the helpers \<^verbatim>\<open>userRoot\<close>, \<^verbatim>\<open>sessionRoot\<close>, \<^verbatim>\<open>sessionMetaRef\<close> and
  \<^verbatim>\<open>sessionMsgsRef\<close>: \<^verbatim>\<open>users/<uid>/sessions/<sid>/meta\<close> and
  \<^verbatim>\<open>users/<uid>/sessions/<sid>/messages/<key>\<close>. Every property of a stored object may be
  missing, since the handlers guard against that (\<^verbatim>\<open>s.meta || {}\<close>, \<^verbatim>\<open>a.ts || 0\<close>,
  \<^verbatim>\<open>m.role && m.text\<close>). Timestamps are numbers, message roles and texts are strings.
\<close>

record message =
  m_role :: "string option"
  m_text :: "string option"
  m_ts :: "int option"

record meta =
  title :: "jsval option"
  createdAt :: "int option"
  updatedAt :: "int option"

record session =
  s_meta :: "meta option"
  s_messages :: "(string \<times> message) list"

text \<open>
  A database node with children is an association list, keys distinct, in the order in
  which the database lists them. That order is the order of the keys: keys that read as
  32-bit integers come first, by their value, and all other keys follow, compared as
  strings. \<open>nameCompare\<close> is that comparison as the database client has it; strings
  are compared byte by byte. A snapshot's \<^verbatim>\<open>val()\<close>, and with it \<^verbatim>\<open>Object.entries\<close> and
  \<^verbatim>\<open>Object.values\<close>, lists the children in the same order, for keys that are not integers
  below 0 or above \<open>2^31 - 1\<close>; such keys are outside the model. The database of one
  process maps each user id to the children of \<^verbatim>\<open>users/<uid>/sessions\<close>.
\<close>

type_synonym db = "string \<Rightarrow> (string \<times> session) list"

text \<open>\<^verbatim>\<open>a < b\<close> on strings.\<close>

fun str_less :: "string \<Rightarrow> string \<Rightarrow> bool" where
  "str_less [] [] = False"
| "str_less [] (y # ys) = True"
| "str_less (x # xs) [] = False"
| "str_less (x # xs) (y # ys) =
     ((of_char x :: nat) < of_char y \<or> (x = y \<and> str_less xs ys))"

definition is_digit :: "char \<Rightarrow> bool" where
  "is_digit c = (c \<in> set ''0123456789'')"

text \<open>The digits of \<^verbatim>\<open>0|[1-9]\d*\<close>, and the number they write.\<close>

fun integer_digits :: "string \<Rightarrow> bool" where
  "integer_digits [] = False"
| "integer_digits (c # cs) =
     (if c = CHR ''0'' then cs = [] else is_digit c \<and> list_all is_digit cs)"

fun digits_value :: "int \<Rightarrow> string \<Rightarrow> int" where
  "digits_value acc [] = acc"
| "digits_value acc (c # cs) = digits_value (10 * acc + (int (of_char c) - 48)) cs"

text \<open>
  A key reads as an integer when it matches \<^verbatim>\<open>^-?(?:0|[1-9]\d*)$\<close> and its value lies
  in the 32-bit range.
\<close>

definition tryParseInt :: "string \<Rightarrow> int option" where
  "tryParseInt s =
     (let negative = (case s of [] \<Rightarrow> False | c # cs \<Rightarrow> c = CHR ''-'');
          digits = (if negative then tl s else s);
          intVal = (if negative then - digits_value 0 digits else digits_value 0 digits)
      in if integer_digits digits \<and> - 2147483648 \<le> intVal \<and> intVal \<le> 2147483647
         then Some intVal else None)"

text \<open>Negative when \<open>a\<close> is listed before \<open>b\<close>.\<close>

definition nameCompare :: "string \<Rightarrow> string \<Rightarrow> int" where
  "nameCompare a b =
     (case tryParseInt a of
        Some aAsInt \<Rightarrow>
          (case tryParseInt b of
             Some bAsInt \<Rightarrow>
               if aAsInt - bAsInt = 0 then int (length a) - int (length b) else aAsInt - bAsInt
           | None \<Rightarrow> - 1)
      | None \<Rightarrow>
          (case tryParseInt b of
             Some bAsInt \<Rightarrow> 1
           | None \<Rightarrow> if str_less a b then - 1 else 1))"

definition no_session :: session where
  "no_session = \<lparr>s_meta = None, s_messages = []\<rparr>"

text \<open>Reading a path: a node that does not exist reads as one without children.\<close>

definition child :: "string \<Rightarrow> (string \<times> session) list \<Rightarrow> session" where
  "child sid ss = (case map_of ss sid of None \<Rightarrow> no_session | Some s \<Rightarrow> s)"

text \<open>
  Writing under a key: an existing child is replaced where it stands, and a new child
  takes its place in the order of the keys, before the first sibling that its key is
  listed before. A key made by \<^verbatim>\<open>push()\<close> is made to sort after the keys pushed before
  it, but the database places it by the comparison like any other key.
\<close>

fun replace_child :: "string \<Rightarrow> 'a \<Rightarrow> (string \<times> 'a) list \<Rightarrow> (string \<times> 'a) list" where
  "replace_child k v [] = []"
| "replace_child k v ((k', v') # rest) =
     (if k = k' then (k, v) # rest else (k', v') # replace_child k v rest)"

fun insert_child :: "string \<Rightarrow> 'a \<Rightarrow> (string \<times> 'a) list \<Rightarrow> (string \<times> 'a) list" where
  "insert_child k v [] = [(k, v)]"
| "insert_child k v ((k', v') # rest) =
     (if nameCompare k k' < 0 then (k, v) # (k', v') # rest
      else (k', v') # insert_child k v rest)"

definition put_child :: "string \<Rightarrow> 'a \<Rightarrow> (string \<times> 'a) list \<Rightarrow> (string \<times> 'a) list" where
  "put_child k v kvs =
     (case map_of kvs k of
        None \<Rightarrow> insert_child k v kvs
      | Some old \<Rightarrow> replace_child k v kvs)"

definition remove_child :: "string \<Rightarrow> (string \<times> 'a) list \<Rightarrow> (string \<times> 'a) list" where
  "remove_child k kvs = filter (\<lambda>kv. fst kv \<noteq> k) kvs"

text \<open>\<^verbatim>\<open>sessionMetaRef(uid, sid).set(v)\<close>: the meta node becomes \<open>v\<close>.\<close>

definition set_meta :: "db \<Rightarrow> string \<Rightarrow> string \<Rightarrow> meta \<Rightarrow> db" where
  "set_meta d uid sid v =
     d(uid := put_child sid ((child sid (d uid))\<lparr>s_meta := Some v\<rparr>) (d uid))"

text \<open>
  \<^verbatim>\<open>sessionMetaRef(uid, sid).update(props)\<close>: the named properties are written and the
  others kept. At a path that holds nothing the write creates the node with only the
  named properties. \<open>upd\<close> is the change to an existing meta, \<open>fresh\<close> the node created
  when there is none.
\<close>

definition update_meta :: "db \<Rightarrow> string \<Rightarrow> string \<Rightarrow> (meta \<Rightarrow> meta) \<Rightarrow> meta \<Rightarrow> db" where
  "update_meta d uid sid upd fresh =
     (let s = child sid (d uid);
          v = (case s_meta s of None \<Rightarrow> fresh | Some old \<Rightarrow> upd old)
      in d(uid := put_child sid (s\<lparr>s_meta := Some v\<rparr>) (d uid)))"

text \<open>
  A message object as the server builds it (\<^verbatim>\<open>userMsg\<close>, \<^verbatim>\<open>aiMsg\<close>): a role, a text and
  the timestamp placeholder. It has no \<^verbatim>\<open>id\<close> property.
\<close>

record new_message =
  n_role :: string
  n_text :: string
  n_ts :: tsval

text \<open>
  \<^verbatim>\<open>const r = msgsRef.push(); await r.set(msg)\<close>: the message is stored under the pushed
  key \<open>k\<close>, its placeholder resolved to the database's time \<open>now\<close>.
\<close>

definition stored :: "int \<Rightarrow> new_message \<Rightarrow> message" where
  "stored now msg =
     \<lparr>m_role = Some (n_role msg), m_text = Some (n_text msg), m_ts = Some (resolve now (n_ts msg))\<rparr>"

definition push_message :: "db \<Rightarrow> string \<Rightarrow> string \<Rightarrow> string \<Rightarrow> int \<Rightarrow> new_message \<Rightarrow> db" where
  "push_message d uid sid k now msg =
     (let s = child sid (d uid)
      in d(uid := put_child sid (s\<lparr>s_messages := put_child k (stored now msg) (s_messages s)\<rparr>) (d uid)))"

section \<open>Array operations of JavaScript\<close>

text \<open>
  \<^verbatim>\<open>Array.prototype.sort(cmp)\<close> is stable, and for a comparator that orders by a key the
  result is the one stable arrangement: an element goes before the first element it does
  not compare greater than.
\<close>

fun js_insert :: "('a \<Rightarrow> 'a \<Rightarrow> int) \<Rightarrow> 'a \<Rightarrow> 'a list \<Rightarrow> 'a list" where
  "js_insert cmp x [] = [x]"
| "js_insert cmp x (y # ys) = (if cmp x y \<le> 0 then x # y # ys else y # js_insert cmp x ys)"

definition js_sort :: "('a \<Rightarrow> 'a \<Rightarrow> int) \<Rightarrow> 'a list \<Rightarrow> 'a list" where
  "js_sort cmp xs = foldr (js_insert cmp) xs []"

text \<open>\<^verbatim>\<open>query.limitToLast(n)\<close>: the last \<open>n\<close> children.\<close>

definition limitToLast :: "nat \<Rightarrow> 'a list \<Rightarrow> 'a list" where
  "limitToLast n xs = drop (length xs - n) xs"

text \<open>\<^verbatim>\<open>Array.prototype.join(sep)\<close> on strings.\<close>

fun js_join :: "string \<Rightarrow> string list \<Rightarrow> string" where
  "js_join sep [] = []"
| "js_join sep [x] = x"
| "js_join sep (x # y # ys) = x @ sep @ js_join sep (y # ys)"

section \<open>HTTP responses\<close>

record session_row =
  sr_id :: string
  sr_title :: "jsval option"
  sr_createdAt :: "int option"
  sr_updatedAt :: "int option"

record message_row =
  r_id :: string
  r_role :: "string option"
  r_text :: "string option"
  r_ts :: "int option"

datatype body =
    Error string
  | Ok
  | SessionCreated string jsval
  | SessionList "session_row list"
  | MessageList "message_row list"
  | Sent new_message new_message

type_synonym response = "nat \<times> body"

section \<open>The session handlers of server.js\<close>

text \<open>
  Each handler runs after the \<^verbatim>\<open>auth\<close> middleware, so it takes the verified \<open>uid\<close>. It
  returns the database after its writes and the response. Database faults are outside the
  model: every read and write succeeds.
\<close>

text \<open>\<^verbatim>\<open>({ id, ...(s.meta || {}) })\<close>\<close>

definition session_row_of :: "string \<times> session \<Rightarrow> session_row" where
  "session_row_of e =
     (case s_meta (snd e) of
        None \<Rightarrow> \<lparr>sr_id = fst e, sr_title = None, sr_createdAt = None, sr_updatedAt = None\<rparr>
      | Some m \<Rightarrow> \<lparr>sr_id = fst e, sr_title = title m, sr_createdAt = createdAt m,
                  sr_updatedAt = updatedAt m\<rparr>)"

text \<open>\<^verbatim>\<open>(a, b) => (b.updatedAt || 0) - (a.updatedAt || 0)\<close>\<close>

definition by_updatedAt_desc :: "session_row \<Rightarrow> session_row \<Rightarrow> int" where
  "by_updatedAt_desc a b = or_zero (sr_updatedAt b) - or_zero (sr_updatedAt a)"

text \<open>\<^verbatim>\<open>GET /api/sessions\<close>\<close>

definition listSessions :: "db \<Rightarrow> string \<Rightarrow> db \<times> response" where
  "listSessions d uid =
     (let rows = map session_row_of (d uid);
          sorted_rows = js_sort by_updatedAt_desc rows
      in (d, (200, SessionList (take 200 sorted_rows))))"

text \<open>\<^verbatim>\<open>POST /api/sessions\<close>; \<open>sid\<close> is the result of \<^verbatim>\<open>uuidv4()\<close>.\<close>

definition createSession :: "db \<Rightarrow> string \<Rightarrow> jsval option \<Rightarrow> string \<Rightarrow> int \<Rightarrow> db \<times> response" where
  "createSession d uid req_title sid now =
     (let t = (case req_title of
                 None \<Rightarrow> JStr ''New chat''
               | Some v \<Rightarrow> if truthy (Some v) then v else JStr ''New chat'')
      in (set_meta d uid sid \<lparr>title = Some t, createdAt = Some now, updatedAt = Some now\<rparr>,
          (201, SessionCreated sid t)))"

text \<open>\<^verbatim>\<open>PATCH /api/sessions/:sid\<close>\<close>

definition renameSession :: "db \<Rightarrow> string \<Rightarrow> string \<Rightarrow> jsval option \<Rightarrow> int \<Rightarrow> db \<times> response" where
  "renameSession d uid sid req_title now =
     (if \<not> truthy req_title then (d, (400, Error ''title required''))
      else (update_meta d uid sid
              (\<lambda>old. old\<lparr>title := req_title, updatedAt := Some now\<rparr>)
              \<lparr>title = req_title, createdAt = None, updatedAt = Some now\<rparr>,
            (200, Ok)))"

text \<open>\<^verbatim>\<open>DELETE /api/sessions/:sid\<close>\<close>

definition deleteSession :: "db \<Rightarrow> string \<Rightarrow> string \<Rightarrow> db \<times> response" where
  "deleteSession d uid sid = (d(uid := remove_child sid (d uid)), (200, Ok))"

section \<open>The message handlers of server.js\<close>

text \<open>\<^verbatim>\<open>({ id, ...m })\<close>\<close>

definition message_row_of :: "string \<times> message \<Rightarrow> message_row" where
  "message_row_of e =
     \<lparr>r_id = fst e, r_role = m_role (snd e), r_text = m_text (snd e), r_ts = m_ts (snd e)\<rparr>"

text \<open>\<^verbatim>\<open>(a, b) => (a.ts || 0) - (b.ts || 0)\<close>\<close>

definition by_ts_asc :: "message_row \<Rightarrow> message_row \<Rightarrow> int" where
  "by_ts_asc a b = or_zero (r_ts a) - or_zero (r_ts b)"

text \<open>\<^verbatim>\<open>GET /api/sessions/:sid/messages\<close>\<close>

definition listMessages :: "db \<Rightarrow> string \<Rightarrow> string \<Rightarrow> db \<times> response" where
  "listMessages d uid sid =
     (let rows = map message_row_of (s_messages (child sid (d uid)))
      in (d, (200, MessageList (js_sort by_ts_asc rows))))"

section \<open>ai.js: the reply generator\<close>

text \<open>
  A promise settles either way. The Gemini client is a parameter: \<open>model prompt\<close> is
  how \<^verbatim>\<open>(await model.generateContent(prompt)).response.text().trim()\<close> settles, a
  rejection standing for any exception on the way.
\<close>

datatype 'a outcome = Resolved 'a | Rejected

text \<open>The history entries that \<^verbatim>\<open>server.js\<close> pushes: \<^verbatim>\<open>{ role, text }\<close>.\<close>

record history_message =
  h_role :: string
  h_text :: string

text \<open>Strings are UTF-8 bytes; the line feed and the two non-ASCII signs are written out.\<close>

definition newline :: string where
  "newline = [CHR 0x0A]"

definition warning_sign :: string where
  "warning_sign = [CHR 0xE2, CHR 0x9A, CHR 0xA0, CHR 0xEF, CHR 0xB8, CHR 0x8F]"

definition ellipsis :: string where
  "ellipsis = [CHR 0xE2, CHR 0x80, CHR 0xA6]"

definition default_system_prompt :: string where
  "default_system_prompt =
     ''You are a chat assistant called ChatJPT on a website of the same name. '' @
     ''You are just meant to be a normal large language model that can caht with '' @
     ''the user and act as an assistant. ''"

text \<open>\<^verbatim>\<open>process.env.SYSTEM_PROMPT || '...'\<close>; \<open>env\<close> is the environment variable.\<close>

definition sysPrompt :: "string option \<Rightarrow> string" where
  "sysPrompt env = (case env of None \<Rightarrow> default_system_prompt
                    | Some s \<Rightarrow> if s = [] then default_system_prompt else s)"

text \<open>\<^verbatim>\<open>messages.find(m => m.role === 'system')?.text || sysPrompt\<close>\<close>

definition sys :: "string option \<Rightarrow> history_message list \<Rightarrow> string" where
  "sys env messages =
     (case find (\<lambda>m. h_role m = ''system'') messages of
        None \<Rightarrow> sysPrompt env
      | Some m \<Rightarrow> if h_text m = [] then sysPrompt env else h_text m)"

definition render :: "history_message \<Rightarrow> string" where
  "render m = (if h_role m = ''assistant'' then ''Assistant'' else ''User'') @ '': '' @ h_text m"

definition convo :: "history_message list \<Rightarrow> string" where
  "convo messages = js_join newline (map render (filter (\<lambda>m. h_role m \<noteq> ''system'') messages))"

text \<open>The template \<^verbatim>\<open>`${sys}\n\n${convo}\nAssistant:`\<close>.\<close>

definition prompt :: "string option \<Rightarrow> history_message list \<Rightarrow> string" where
  "prompt env messages =
     sys env messages @ newline @ newline @ convo messages @ newline @ ''Assistant:''"

definition gemini_fallback :: string where
  "gemini_fallback = warning_sign @ '' Sorry, I had trouble talking to Gemini.''"

text \<open>
  \<^verbatim>\<open>generateReply\<close>: its whole body is inside \<^verbatim>\<open>try\<close>, and the \<^verbatim>\<open>catch\<close> returns the
  fallback text, so its promise resolves either way. The result is the \<^verbatim>\<open>text\<close> property
  of the object it returns.
\<close>

definition generateReply ::
  "string option \<Rightarrow> (string \<Rightarrow> string outcome) \<Rightarrow> history_message list \<Rightarrow> string outcome" where
  "generateReply env model messages =
     (case model (prompt env messages) of
        Resolved t \<Rightarrow> Resolved t
      | Rejected \<Rightarrow> Resolved gemini_fallback)"

section \<open>Sending a message\<close>

text \<open>
  The loop over \<^verbatim>\<open>Object.values(snap.val())\<close> that fills \<^verbatim>\<open>history\<close>: the second
  argument is the array built so far.
\<close>

fun collect :: "message list \<Rightarrow> history_message list \<Rightarrow> history_message list" where
  "collect [] history = history"
| "collect (m # ms) history =
     collect ms
       (if truthy_str (m_role m) \<and> truthy_str (m_text m)
        then (case (m_role m, m_text m) of
                (Some r, Some t) \<Rightarrow> history @ [\<lparr>h_role = r, h_text = t\<rparr>]
              | _ \<Rightarrow> history)
        else history)"

text \<open>
  Step 2 of the handler, on the messages node as it stands after the user's message was
  stored: the last 20 children, the loop when the snapshot exists, then the push of the
  new text.
\<close>

definition read_history :: "(string \<times> message) list \<Rightarrow> string \<Rightarrow> history_message list" where
  "read_history msgs txt =
     (let snap = limitToLast 20 msgs;
          history = (if snap \<noteq> [] then collect (map snd snap) [] else [])
      in history @ [\<lparr>h_role = ''user'', h_text = txt\<rparr>])"

text \<open>
  What the database chooses during one request: the two pushed keys, and its clock at
  the three writes.
\<close>

record pushes =
  userKey :: string
  userTime :: int
  aiKey :: string
  aiTime :: int
  metaTime :: int

definition userMsg :: "string \<Rightarrow> new_message" where
  "userMsg txt = \<lparr>n_role = ''user'', n_text = txt, n_ts = TIMESTAMP\<rparr>"

definition aiMsg :: "string \<Rightarrow> new_message" where
  "aiMsg replyText = \<lparr>n_role = ''assistant'', n_text = replyText, n_ts = TIMESTAMP\<rparr>"

text \<open>The context handed to \<^verbatim>\<open>generateReply\<close>: steps 1 and 2.\<close>

definition pipeline_context :: "db \<Rightarrow> string \<Rightarrow> string \<Rightarrow> string \<Rightarrow> pushes \<Rightarrow> history_message list" where
  "pipeline_context d uid sid txt p =
     (let d1 = push_message d uid sid (userKey p) (userTime p) (userMsg txt)
      in read_history (s_messages (child sid (d1 uid))) txt)"

text \<open>
  Step 3: the \<^verbatim>\<open>try\<close> around the call. An empty \<^verbatim>\<open>aiText\<close> is replaced by the
  ellipsis sign (\<^verbatim>\<open>aiText || ...\<close>); the \<^verbatim>\<open>catch\<close> answers a rejection.
\<close>

definition ai_service_error :: string where
  "ai_service_error = warning_sign @ '' AI service error.''"

definition replyText :: "string outcome \<Rightarrow> string" where
  "replyText r = (case r of
                    Resolved aiText \<Rightarrow> if aiText = [] then ellipsis else aiText
                  | Rejected \<Rightarrow> ai_service_error)"

text \<open>Steps 1 to 5 and the response, for a text that passed the check.\<close>

definition pipeline ::
  "string option \<Rightarrow> (string \<Rightarrow> string outcome) \<Rightarrow> db \<Rightarrow> string \<Rightarrow> string \<Rightarrow> string \<Rightarrow> pushes
     \<Rightarrow> db \<times> response" where
  "pipeline env model d uid sid txt p =
     (let d1 = push_message d uid sid (userKey p) (userTime p) (userMsg txt);
          history = pipeline_context d uid sid txt p;
          reply = replyText (generateReply env model history);
          d2 = push_message d1 uid sid (aiKey p) (aiTime p) (aiMsg reply);
          d3 = update_meta d2 uid sid (\<lambda>old. old\<lparr>updatedAt := Some (metaTime p)\<rparr>)
                 \<lparr>title = None, createdAt = None, updatedAt = Some (metaTime p)\<rparr>
      in (d3, (201, Sent (userMsg txt) (aiMsg reply))))"

text \<open>
  \<^verbatim>\<open>POST /api/sessions/:sid/messages\<close>: \<^verbatim>\<open>!text || typeof text !== 'string'\<close> answers
  400 before anything is written.
\<close>

definition sendMessage ::
  "string option \<Rightarrow> (string \<Rightarrow> string outcome) \<Rightarrow> db \<Rightarrow> string \<Rightarrow> string \<Rightarrow> jsval option \<Rightarrow> pushes
     \<Rightarrow> db \<times> response" where
  "sendMessage env model d uid sid req_text p =
     (case req_text of
        Some (JStr txt) \<Rightarrow>
          if txt = [] then (d, (400, Error ''text required''))
          else pipeline env model d uid sid txt p
      | _ \<Rightarrow> (d, (400, Error ''text required'')))"

section \<open>The generator's input as the specification words it\<close>

text \<open>
  The specification describes the text sent to the generator in three parts: the system
  instruction, which is the text of the first context message whose role is
  \<^verbatim>\<open>system\<close> and a default when there is none; the messages that are not system
  messages, each as a line \<^verbatim>\<open><Role>: <text>\<close>, joined by line feeds; and the cue
  \<^verbatim>\<open>Assistant:\<close>. These definitions follow that wording, to be compared with \<open>prompt\<close>;
  the separators between the parts (an empty line after the instruction, a line feed
  before the cue) are those of the template in \<^verbatim>\<open>ai.js\<close>.
\<close>

fun spec_system_instruction :: "string \<Rightarrow> history_message list \<Rightarrow> string" where
  "spec_system_instruction dflt [] = dflt"
| "spec_system_instruction dflt (m # ms) =
     (if h_role m = ''system'' then h_text m else spec_system_instruction dflt ms)"

fun spec_lines :: "history_message list \<Rightarrow> string list" where
  "spec_lines [] = []"
| "spec_lines (m # ms) =
     (if h_role m = ''system'' then spec_lines ms
      else ((if h_role m = ''assistant'' then ''Assistant'' else ''User'') @ '': '' @ h_text m)
             # spec_lines ms)"

fun spec_newline_joined :: "string list \<Rightarrow> string" where
  "spec_newline_joined [] = []"
| "spec_newline_joined (l # ls) = l @ concat (map (\<lambda>x. newline @ x) ls)"

definition spec_prompt :: "string \<Rightarrow> history_message list \<Rightarrow> string" where
  "spec_prompt dflt context =
     spec_system_instruction dflt context @ newline @ newline @
     spec_newline_joined (spec_lines context) @ newline @ ''Assistant:''"

section \<open>Sorting with a comparator on a numeric key\<close>

text \<open>
  Both comparators of \<^verbatim>\<open>server.js\<close> subtract a numeric key, so \<open>js_sort\<close> with them is
  the library's stable insertion sort on that key.
\<close>

lemma js_insert_insort_key:
  assumes "\<And>a b. (cmp a b \<le> 0) = (f a \<le> f b)"
  shows "js_insert cmp x ys = insort_key f x ys"
  by (induction ys) (simp_all add: assms)

lemma js_sort_sort_key:
  assumes "\<And>a b. (cmp a b \<le> 0) = (f a \<le> f b)"
  shows "js_sort cmp xs = sort_key f xs"
proof -
  have "js_insert cmp = insort_key f"
    by (intro ext) (rule js_insert_insort_key [OF assms])
  then show ?thesis
    by (simp add: js_sort_def sort_key_def)
qed

lemma sessions_sorted_as_library:
  "js_sort by_updatedAt_desc rows = sort_key (\<lambda>r. - or_zero (sr_updatedAt r)) rows"
  by (rule js_sort_sort_key) (simp add: by_updatedAt_desc_def)

lemma messages_sorted_as_library:
  "js_sort by_ts_asc rows = sort_key (\<lambda>r. or_zero (r_ts r)) rows"
  by (rule js_sort_sort_key) (simp add: by_ts_asc_def)

lemma sorted_wrt_key:
  "sorted (map f xs) = sorted_wrt (\<lambda>a b. f a \<le> f b) xs"
  by (induction xs) auto

lemma set_js_sort_by_ts: "set (js_sort by_ts_asc rows) = set rows"
  by (simp add: messages_sorted_as_library)

section \<open>Writes to the database\<close>

lemma put_child_Nil: "put_child k v [] = [(k, v)]"
  by (simp add: put_child_def)

lemma map_of_insert_child:
  "map_of kvs k = None \<Longrightarrow> map_of (insert_child k v kvs) = (map_of kvs)(k \<mapsto> v)"
  by (induction kvs) (auto simp: fun_eq_iff split: if_splits)

lemma map_of_replace_child:
  "map_of kvs k = Some old \<Longrightarrow> map_of (replace_child k v kvs) = (map_of kvs)(k \<mapsto> v)"
  by (induction kvs) (auto simp: fun_eq_iff split: if_splits)

lemma map_of_put_child: "map_of (put_child k v kvs) = (map_of kvs)(k \<mapsto> v)"
  by (cases "map_of kvs k") (simp_all add: put_child_def map_of_insert_child map_of_replace_child)

lemma child_put_child: "child k (put_child k v kvs) = v"
  by (simp add: child_def map_of_put_child)

lemma mset_insert_child: "mset (insert_child k v kvs) = add_mset (k, v) (mset kvs)"
  by (induction kvs) auto

lemma set_insert_child: "set (insert_child k v kvs) = insert (k, v) (set kvs)"
proof -
  have "set_mset (mset (insert_child k v kvs)) = set_mset (add_mset (k, v) (mset kvs))"
    by (simp only: mset_insert_child)
  then show ?thesis
    by simp
qed

lemma replace_child_same: "map_of kvs k = Some old \<Longrightarrow> (k, v) \<in> set (replace_child k v kvs)"
  by (induction kvs) (auto split: if_splits)

lemma replace_child_other:
  "(k', v') \<in> set kvs \<Longrightarrow> k' \<noteq> k \<Longrightarrow> (k', v') \<in> set (replace_child k v kvs)"
  by (induction kvs) auto

lemma put_child_same: "(k, v) \<in> set (put_child k v kvs)"
  by (cases "map_of kvs k") (simp_all add: put_child_def set_insert_child replace_child_same)

lemma put_child_other:
  "(k', v') \<in> set kvs \<Longrightarrow> k' \<noteq> k \<Longrightarrow> (k', v') \<in> set (put_child k v kvs)"
  by (cases "map_of kvs k") (simp_all add: put_child_def set_insert_child replace_child_other)

text \<open>A new key: the children are those there were and the new one.\<close>

lemma put_child_fresh:
  assumes "k \<notin> fst ` set kvs"
  shows "put_child k v kvs = insert_child k v kvs"
proof -
  have "map_of kvs k = None"
    using assms by (simp add: map_of_eq_None_iff)
  then show ?thesis
    by (simp add: put_child_def)
qed

lemma remove_child_absent: "k \<notin> fst ` set kvs \<Longrightarrow> remove_child k kvs = kvs"
  by (induction kvs) (auto simp: remove_child_def)

lemma remove_insert_child:
  "k \<notin> fst ` set kvs \<Longrightarrow> remove_child k (insert_child k v kvs) = kvs"
proof (induction kvs)
  case Nil
  then show ?case by (simp add: remove_child_def)
next
  case (Cons e kvs)
  then have "fst e \<noteq> k" and "k \<notin> fst ` set kvs"
    by auto
  moreover from this have "remove_child k kvs = kvs"
    by (simp add: remove_child_absent)
  ultimately show ?case
    using Cons.IH by (cases e) (simp add: remove_child_def)
qed

text \<open>A new key that is listed before none of its siblings comes last.\<close>

lemma insert_child_last:
  "(\<And>k'. k' \<in> fst ` set kvs \<Longrightarrow> \<not> nameCompare k k' < 0) \<Longrightarrow>
     insert_child k v kvs = kvs @ [(k, v)]"
  by (induction kvs) auto

lemma str_less_replicate: "str_less (replicate m c) (replicate n c) = (m < n)"
proof (induction m arbitrary: n)
  case 0
  then show ?case by (cases n) simp_all
next
  case (Suc m)
  then show ?case by (cases n) simp_all
qed

lemma tryParseInt_letter: "tryParseInt (CHR ''k'' # s) = None"
  by (simp add: tryParseInt_def is_digit_def)

lemma nameCompare_replicate:
  "nameCompare (replicate (Suc m) (CHR ''k'')) (replicate (Suc n) (CHR ''k'')) =
     (if m < n then - 1 else 1)"
  using str_less_replicate [of "Suc m" "CHR ''k''" "Suc n"]
  by (simp add: nameCompare_def tryParseInt_letter del: str_less.simps)

lemma messages_after_push:
  "s_messages (child sid (push_message d uid sid k now msg uid)) =
     put_child k (stored now msg) (s_messages (child sid (d uid)))"
  by (simp add: push_message_def Let_def child_put_child)

lemma messages_after_update_meta:
  "s_messages (child sid (update_meta d uid sid upd fresh uid)) = s_messages (child sid (d uid))"
  by (simp add: update_meta_def Let_def child_put_child)

lemma limitToLast_snoc: "limitToLast (Suc n) (xs @ [x]) = limitToLast n xs @ [x]"
  by (simp add: limitToLast_def Suc_diff_le)

section \<open>The loop that fills the history\<close>

lemma truthy_str_the: "truthy_str s \<Longrightarrow> the s \<noteq> []"
  by (cases s) simp_all

lemma collect_append_acc: "collect ms (h @ h') = h @ collect ms h'"
  by (induction ms arbitrary: h') (auto split: option.splits)

lemma collect_acc: "collect ms h = h @ collect ms []"
  using collect_append_acc [of ms h "[]"] by simp

text \<open>What one message of the snapshot adds to the history.\<close>

lemma collect_one:
  "collect [m] [] =
     (if truthy_str (m_role m) \<and> truthy_str (m_text m)
      then [\<lparr>h_role = the (m_role m), h_text = the (m_text m)\<rparr>] else [])"
  by (cases "m_role m"; cases "m_text m") simp_all

lemma collect_Cons: "collect (m # ms) [] = collect [m] [] @ collect ms []"
proof -
  have "collect (m # ms) [] = collect ms (collect [m] [])"
    by (simp split: option.splits)
  then show ?thesis
    using collect_acc [of ms "collect [m] []"] by simp
qed

lemma collect_append: "collect (ms @ ms') [] = collect ms [] @ collect ms' []"
proof (induction ms)
  case Nil
  then show ?case by simp
next
  case (Cons m ms)
  have "collect ((m # ms) @ ms') [] = collect [m] [] @ collect (ms @ ms') []"
    using collect_Cons [of m "ms @ ms'"] by simp
  also have "\<dots> = collect [m] [] @ collect ms [] @ collect ms' []"
    by (simp add: Cons.IH)
  also have "\<dots> = collect (m # ms) [] @ collect ms' []"
    using collect_Cons [of m ms] by simp
  finally show ?case .
qed

lemma length_collect: "length (collect ms []) \<le> length ms"
proof (induction ms)
  case Nil
  then show ?case by simp
next
  case (Cons m ms)
  have "length (collect (m # ms) []) = length (collect [m] []) + length (collect ms [])"
    using collect_Cons [of m ms] by simp
  moreover have "length (collect [m] []) \<le> 1"
    unfolding collect_one by simp
  ultimately show ?case
    using Cons by simp
qed

lemma collect_one_texts:
  assumes "x \<in> set (collect [m] [])"
  shows "h_text x \<noteq> []"
proof (cases "truthy_str (m_role m) \<and> truthy_str (m_text m)")
  case True
  with assms have "h_text x = the (m_text m)"
    unfolding collect_one by simp
  with True show ?thesis
    by (simp add: truthy_str_the)
next
  case False
  with assms show ?thesis
    unfolding collect_one by simp
qed

lemma collect_texts: "x \<in> set (collect ms []) \<Longrightarrow> h_text x \<noteq> []"
proof (induction ms)
  case Nil
  then show ?case by simp
next
  case (Cons m ms)
  have "set (collect (m # ms) []) = set (collect [m] []) \<union> set (collect ms [])"
    by (simp only: collect_Cons [of m ms] set_append)
  with Cons.prems have "x \<in> set (collect [m] []) \<or> x \<in> set (collect ms [])"
    by blast
  then show ?case
    using collect_one_texts Cons.IH by blast
qed

section \<open>The context of a request\<close>

lemma read_history_collect:
  "read_history msgs txt =
     collect (map snd (limitToLast 20 msgs)) [] @ [\<lparr>h_role = ''user'', h_text = txt\<rparr>]"
  by (simp add: read_history_def Let_def)

lemma length_read_history: "length (read_history msgs txt) \<le> 21"
proof -
  have "length (collect (map snd (limitToLast 20 msgs)) []) \<le> length (limitToLast 20 msgs)"
    using length_collect [of "map snd (limitToLast 20 msgs)"] by simp
  also have "\<dots> \<le> 20"
    by (simp add: limitToLast_def)
  finally show ?thesis
    by (simp add: read_history_collect)
qed

lemma read_history_system_texts:
  "m \<in> set (read_history msgs txt) \<Longrightarrow> h_role m = ''system'' \<Longrightarrow> h_text m \<noteq> []"
  by (auto simp: read_history_collect dest: collect_texts)

lemma pipeline_context_collect:
  "pipeline_context d uid sid txt p =
     collect (map snd (limitToLast 20
        (put_child (userKey p) (stored (userTime p) (userMsg txt)) (s_messages (child sid (d uid)))))) []
     @ [\<lparr>h_role = ''user'', h_text = txt\<rparr>]"
  by (simp add: pipeline_context_def Let_def messages_after_push read_history_collect)

text \<open>
  When the message just stored is the last child of the snapshot, it comes after the 19
  that were last before it.
\<close>

lemma pipeline_context_last:
  assumes "put_child (userKey p) (stored (userTime p) (userMsg txt)) (s_messages (child sid (d uid)))
             = s_messages (child sid (d uid)) @ [(userKey p, stored (userTime p) (userMsg txt))]"
  shows "pipeline_context d uid sid txt p =
           collect (map snd (limitToLast 19 (s_messages (child sid (d uid))))) []
           @ collect [stored (userTime p) (userMsg txt)] []
           @ [\<lparr>h_role = ''user'', h_text = txt\<rparr>]"
proof -
  let ?msgs = "s_messages (child sid (d uid))"
  let ?new = "(userKey p, stored (userTime p) (userMsg txt))"
  have "limitToLast 20 (?msgs @ [?new]) = limitToLast 19 ?msgs @ [?new]"
    using limitToLast_snoc [of 19 ?msgs ?new] by simp
  with assms show ?thesis
    by (simp add: pipeline_context_collect collect_append del: collect.simps)
qed

text \<open>A message of the snapshot with a role and a text has its entry in the history.\<close>

lemma collect_member:
  assumes "m \<in> set ms" and "truthy_str (m_role m)" and "truthy_str (m_text m)"
  shows "\<lparr>h_role = the (m_role m), h_text = the (m_text m)\<rparr> \<in> set (collect ms [])"
proof -
  from assms(1) obtain before after where "ms = before @ m # after"
    by (auto simp: in_set_conv_decomp)
  then have "collect ms [] = collect before [] @ collect [m] [] @ collect after []"
    using collect_append [of before "m # after"] collect_Cons [of m after] by simp
  then show ?thesis
    unfolding collect_one using assms(2,3) by simp
qed

lemma limitToLast_all: "length xs \<le> n \<Longrightarrow> limitToLast n xs = xs"
  by (simp add: limitToLast_def)

lemma context_at_most_21: "length (pipeline_context d uid sid txt p) \<le> 21"
  unfolding pipeline_context_def Let_def by (rule length_read_history)

lemma messages_after_pipeline:
  "s_messages (child sid (fst (pipeline env model d uid sid txt p) uid)) =
     put_child (aiKey p)
       (stored (aiTime p) (aiMsg (replyText (generateReply env model (pipeline_context d uid sid txt p)))))
       (put_child (userKey p) (stored (userTime p) (userMsg txt)) (s_messages (child sid (d uid))))"
  by (simp add: pipeline_def Let_def messages_after_update_meta messages_after_push)

section \<open>The reply\<close>

lemma generateReply_resolves: "\<exists>t. generateReply env model messages = Resolved t"
  by (simp add: generateReply_def split: outcome.splits)

lemma replyText_not_empty: "replyText r \<noteq> []"
  by (simp add: replyText_def ai_service_error_def ellipsis_def warning_sign_def split: outcome.splits)

section \<open>The prompt and the specification's wording\<close>

lemma js_join_concat:
  "js_join sep (l # ls) = l @ concat (map (\<lambda>x. sep @ x) ls)"
  by (induction ls arbitrary: l) simp_all

lemma js_join_spec: "js_join newline ls = spec_newline_joined ls"
  by (cases ls) (simp_all add: js_join_concat)

lemma lines_spec: "map render (filter (\<lambda>m. h_role m \<noteq> ''system'') ms) = spec_lines ms"
  by (induction ms) (simp_all add: render_def)

text \<open>
  \<^verbatim>\<open>find(...)?.text || sysPrompt\<close> takes the default also when the first system message
  has an empty text; the two agree when no system message has one.
\<close>

lemma sys_spec:
  assumes "\<And>m. m \<in> set ms \<Longrightarrow> h_role m = ''system'' \<Longrightarrow> h_text m \<noteq> []"
  shows "sys env ms = spec_system_instruction (sysPrompt env) ms"
  using assms
proof (induction ms)
  case Nil
  then show ?case by (simp add: sys_def)
next
  case (Cons m ms)
  show ?case
  proof (cases "h_role m = ''system''")
    case True
    with Cons.prems [of m] show ?thesis by (simp add: sys_def)
  next
    case False
    have "sys env ms = spec_system_instruction (sysPrompt env) ms"
      by (rule Cons.IH) (simp add: Cons.prems)
    with False show ?thesis by (simp add: sys_def)
  qed
qed

lemma prompt_spec:
  assumes "\<And>m. m \<in> set ms \<Longrightarrow> h_role m = ''system'' \<Longrightarrow> h_text m \<noteq> []"
  shows "prompt env ms = spec_prompt (sysPrompt env) ms"
  using sys_spec [OF assms]
  by (simp add: prompt_def spec_prompt_def convo_def lines_spec js_join_spec)

section \<open>Claims about the context window\<close>

text \<open>
  Claim C1, as stated: for a session with at least 25 appended messages the context
  handed to the generator has at most 20 entries. It fails. Here the session holds 25
  well-formed messages; the request stores its own, reads the last 20 and then pushes
  the new text once more, so the generator is handed 21 entries.
\<close>

theorem context_exceeds_20:
  "length (s_messages (child ''s''
      (((\<lambda>u. [])(''u'' := [(''s'', \<lparr>s_meta = None, s_messages =
           map (\<lambda>i. (replicate (Suc i) (CHR ''k''),
                      \<lparr>m_role = Some ''user'', m_text = Some ''x'', m_ts = Some (int i)\<rparr>))
               [0..<25]\<rparr>)])) ''u''))) = 25
   \<and> length (pipeline_context
        ((\<lambda>u. [])(''u'' := [(''s'', \<lparr>s_meta = None, s_messages =
           map (\<lambda>i. (replicate (Suc i) (CHR ''k''),
                      \<lparr>m_role = Some ''user'', m_text = Some ''x'', m_ts = Some (int i)\<rparr>))
               [0..<25]\<rparr>)]))
        ''u'' ''s'' ''hi''
        \<lparr>userKey = replicate 26 (CHR ''k''), userTime = 25,
         aiKey = replicate 27 (CHR ''k''), aiTime = 26, metaTime = 27\<rparr>) = 21"
proof -
  let ?msgs = "map (\<lambda>i. (replicate (Suc i) (CHR ''k''),
                      \<lparr>m_role = Some ''user'', m_text = Some ''x'', m_ts = Some (int i)\<rparr>))
               [0..<25]"
  let ?d = "(\<lambda>u. [])(''u'' := [(''s'', \<lparr>s_meta = None, s_messages = ?msgs\<rparr>)])"
  let ?p = "\<lparr>userKey = replicate 26 (CHR ''k''), userTime = 25,
         aiKey = replicate 27 (CHR ''k''), aiTime = 26, metaTime = 27\<rparr>"
  have m: "s_messages (child ''s'' (?d ''u'')) = ?msgs"
    by (simp add: child_def)
  have fresh: "replicate 26 (CHR ''k'') \<notin> fst ` set ?msgs"
    by (auto simp del: replicate.simps)
  have last: "\<not> nameCompare (replicate 26 (CHR ''k'')) k' < 0" if "k' \<in> fst ` set ?msgs" for k'
  proof -
    from that obtain i where "i < 25" and "k' = replicate (Suc i) (CHR ''k'')"
      by auto
    then show ?thesis
      using nameCompare_replicate [of 25 i] by (simp del: replicate.simps)
  qed
  have "put_child (replicate 26 (CHR ''k'')) (stored 25 (userMsg ''hi'')) ?msgs =
          ?msgs @ [(replicate 26 (CHR ''k''), stored 25 (userMsg ''hi''))]"
    using put_child_fresh [OF fresh] insert_child_last [of ?msgs "replicate 26 (CHR ''k'')"] last
    by simp
  then have put: "put_child (userKey ?p) (stored (userTime ?p) (userMsg ''hi''))
                    (s_messages (child ''s'' (?d ''u'')))
                  = s_messages (child ''s'' (?d ''u''))
                    @ [(userKey ?p, stored (userTime ?p) (userMsg ''hi''))]"
    unfolding m by simp
  have "length (collect (map snd (limitToLast 19 ?msgs)) []) = 19"
    by (simp add: limitToLast_def upt_rec)
  moreover have "pipeline_context ?d ''u'' ''s'' ''hi'' ?p =
           collect (map snd (limitToLast 19 (s_messages (child ''s'' (?d ''u''))))) []
           @ collect [stored (userTime ?p) (userMsg ''hi'')] []
           @ [\<lparr>h_role = ''user'', h_text = ''hi''\<rparr>]"
    using put by (rule pipeline_context_last)
  ultimately have "length (pipeline_context ?d ''u'' ''s'' ''hi'' ?p) = 21"
    unfolding m by (simp add: stored_def userMsg_def)
  moreover have "length (s_messages (child ''s'' (?d ''u''))) = 25"
    unfolding m by simp
  ultimately show ?thesis by blast
qed

text \<open>
  Claim C1, amended. For every session and every request, the context handed to the
  generator has at most 21 entries: at most 20 from the windowed read and the new text
  pushed after them. \<open>listMessages\<close> on the database the request leaves behind still
  answers with the whole log.
\<close>

theorem last_twenty_and_the_new_message:
  "length (pipeline_context d uid sid txt p) \<le> 21
   \<and> (\<exists>out. snd (listMessages (fst (pipeline env model d uid sid txt p)) uid sid) =
               (200, MessageList out)
        \<and> length out = length (s_messages (child sid (fst (pipeline env model d uid sid txt p) uid))))"
proof -
  let ?d' = "fst (pipeline env model d uid sid txt p)"
  let ?out = "js_sort by_ts_asc (map message_row_of (s_messages (child sid (?d' uid))))"
  have "snd (listMessages ?d' uid sid) = (200, MessageList ?out)"
    by (simp add: listMessages_def)
  moreover have "length ?out = length (s_messages (child sid (?d' uid)))"
    by (simp add: messages_sorted_as_library)
  ultimately show ?thesis
    using context_at_most_21 by blast
qed

text \<open>The first request of a session: two entries in the context, two rows in the log.\<close>

theorem last_twenty_and_the_new_message_witness:
  "length (pipeline_context (\<lambda>u. []) ''u'' ''s'' ''hi''
      \<lparr>userKey = ''k1'', userTime = 1, aiKey = ''k2'', aiTime = 2, metaTime = 3\<rparr>) \<le> 21
   \<and> snd (listMessages (fst (pipeline None (\<lambda>q. Resolved ''yo'') (\<lambda>u. []) ''u'' ''s'' ''hi''
               \<lparr>userKey = ''k1'', userTime = 1, aiKey = ''k2'', aiTime = 2, metaTime = 3\<rparr>)) ''u'' ''s'')
     = (200, MessageList
          [\<lparr>r_id = ''k1'', r_role = Some ''user'', r_text = Some ''hi'', r_ts = Some 1\<rparr>,
           \<lparr>r_id = ''k2'', r_role = Some ''assistant'', r_text = Some ''yo'', r_ts = Some 2\<rparr>])"
proof -
  have "snd (listMessages (fst (pipeline None (\<lambda>q. Resolved ''yo'') (\<lambda>u. []) ''u'' ''s'' ''hi''
               \<lparr>userKey = ''k1'', userTime = 1, aiKey = ''k2'', aiTime = 2, metaTime = 3\<rparr>)) ''u'' ''s'')
     = (200, MessageList
          [\<lparr>r_id = ''k1'', r_role = Some ''user'', r_text = Some ''hi'', r_ts = Some 1\<rparr>,
           \<lparr>r_id = ''k2'', r_role = Some ''assistant'', r_text = Some ''yo'', r_ts = Some 2\<rparr>])"
    unfolding listMessages_def Let_def messages_after_pipeline
    by (simp add: child_def no_session_def js_sort_def by_ts_asc_def message_row_of_def
        stored_def userMsg_def aiMsg_def replyText_def generateReply_def
        put_child_def nameCompare_def tryParseInt_def is_digit_def)
  then show ?thesis
    using last_twenty_and_the_new_message
      [of "\<lambda>u. []" "''u''" "''s''" "''hi''"
          "\<lparr>userKey = ''k1'', userTime = 1, aiKey = ''k2'', aiTime = 2, metaTime = 3\<rparr>"
          None "\<lambda>q. Resolved ''yo''"]
    by simp
qed

text \<open>
  Claim C2, as stated: the new message is appended to the context only when the windowed
  read did not hold it, so it occurs exactly once. It fails. In the first request of a
  session the read returns the message just stored, and the handler pushes the text
  again: the context holds it twice.
\<close>

theorem triggering_message_twice:
  "pipeline_context (\<lambda>u. []) ''u'' ''s'' ''hi''
     \<lparr>userKey = ''k1'', userTime = 1, aiKey = ''k2'', aiTime = 2, metaTime = 3\<rparr>
   = [\<lparr>h_role = ''user'', h_text = ''hi''\<rparr>, \<lparr>h_role = ''user'', h_text = ''hi''\<rparr>]"
  by (simp add: pipeline_context_collect child_def no_session_def limitToLast_def stored_def
      userMsg_def put_child_Nil)

text \<open>
  Claim C2, amended. For every send-message request, the handler appends the new user
  message to the end of the assembled context without looking whether the windowed read
  holds it: the context is what the windowed read contributes, followed by the new
  message. The triggering message is therefore always in the context, as its last
  entry, and it is there a second time whenever the windowed read holds the message
  just stored (for a non-empty text), as it does in every session that holds at most
  20 messages after the write.
\<close>

theorem triggering_message_appended_always:
  "(let window = limitToLast 20 (s_messages (child sid
                   (push_message d uid sid (userKey p) (userTime p) (userMsg txt) uid)))
    in pipeline_context d uid sid txt p =
         collect (map snd window) [] @ [\<lparr>h_role = ''user'', h_text = txt\<rparr>]
       \<and> (txt \<noteq> [] \<and> (userKey p, stored (userTime p) (userMsg txt)) \<in> set window \<longrightarrow>
            \<lparr>h_role = ''user'', h_text = txt\<rparr> \<in> set (collect (map snd window) []))
       \<and> (length (s_messages (child sid
              (push_message d uid sid (userKey p) (userTime p) (userMsg txt) uid))) \<le> 20 \<longrightarrow>
            (userKey p, stored (userTime p) (userMsg txt)) \<in> set window))"
proof -
  let ?log = "s_messages (child sid (push_message d uid sid (userKey p) (userTime p) (userMsg txt) uid))"
  let ?window = "limitToLast 20 ?log"
  let ?new = "(userKey p, stored (userTime p) (userMsg txt))"
  have a: "pipeline_context d uid sid txt p =
             collect (map snd ?window) [] @ [\<lparr>h_role = ''user'', h_text = txt\<rparr>]"
    by (simp add: pipeline_context_def Let_def read_history_collect)
  have b: "\<lparr>h_role = ''user'', h_text = txt\<rparr> \<in> set (collect (map snd ?window) [])"
    if "txt \<noteq> []" and "?new \<in> set ?window"
  proof -
    from that(2) have "stored (userTime p) (userMsg txt) \<in> set (map snd ?window)"
      by force
    moreover have "truthy_str (m_role (stored (userTime p) (userMsg txt)))"
      and "truthy_str (m_text (stored (userTime p) (userMsg txt)))"
      using that(1) by (simp_all add: stored_def userMsg_def)
    ultimately have "\<lparr>h_role = the (m_role (stored (userTime p) (userMsg txt))),
                      h_text = the (m_text (stored (userTime p) (userMsg txt)))\<rparr>
                     \<in> set (collect (map snd ?window) [])"
      by (rule collect_member)
    then show ?thesis
      by (simp add: stored_def userMsg_def)
  qed
  have c: "?new \<in> set ?window" if "length ?log \<le> 20"
  proof -
    have "?new \<in> set ?log"
      unfolding messages_after_push by (rule put_child_same)
    then show ?thesis
      using that by (simp add: limitToLast_all)
  qed
  from a b c show ?thesis
    unfolding Let_def by blast
qed

text \<open>
  A session with two messages under \<^verbatim>\<open>k1\<close> and \<^verbatim>\<open>k2\<close> and a pushed key that the
  database lists before them: the new message is first in the read and is pushed again
  at the end.
\<close>

theorem triggering_message_appended_always_witness:
  "pipeline_context
     ((\<lambda>u. [])(''u'' := [(''s'', \<lparr>s_meta = None, s_messages =
        [(''k1'', \<lparr>m_role = Some ''user'', m_text = Some ''a'', m_ts = Some 1\<rparr>),
         (''k2'', \<lparr>m_role = Some ''assistant'', m_text = Some ''b'', m_ts = Some 2\<rparr>)]\<rparr>)]))
     ''u'' ''s'' ''c''
     \<lparr>userKey = ''-P5V8e3tV2bo2sA9ljhS'', userTime = 3, aiKey = ''-P5V8e3tV2bo2sA9ljhT'',
      aiTime = 4, metaTime = 5\<rparr>
   = [\<lparr>h_role = ''user'', h_text = ''c''\<rparr>, \<lparr>h_role = ''user'', h_text = ''a''\<rparr>,
      \<lparr>h_role = ''assistant'', h_text = ''b''\<rparr>, \<lparr>h_role = ''user'', h_text = ''c''\<rparr>]"
  using triggering_message_appended_always
    [of "''s''"
        "(\<lambda>u. [])(''u'' := [(''s'', \<lparr>s_meta = None, s_messages =
        [(''k1'', \<lparr>m_role = Some ''user'', m_text = Some ''a'', m_ts = Some 1\<rparr>),
         (''k2'', \<lparr>m_role = Some ''assistant'', m_text = Some ''b'', m_ts = Some 2\<rparr>)]\<rparr>)])"
        "''u''"
        "\<lparr>userKey = ''-P5V8e3tV2bo2sA9ljhS'', userTime = 3, aiKey = ''-P5V8e3tV2bo2sA9ljhT'',
          aiTime = 4, metaTime = 5\<rparr>"
        "''c''"]
  by (simp add: Let_def push_message_def child_def put_child_def nameCompare_def tryParseInt_def
      is_digit_def limitToLast_def stored_def userMsg_def)

section \<open>Claims about the response of a send\<close>

text \<open>
  Claim C3. Steps 1 to 5 always end in the response 201 with one user message, carrying
  the text sent, and one assistant message, whose text is never empty. \<open>generateReply\<close>
  never rejects, so no failure of the generator reaches the caller; when the Gemini call
  fails on the prompt of this request, the assistant text is the fallback string of
  \<^verbatim>\<open>ai.js\<close>. The handler runs these steps for every text that is a non-empty string.
\<close>

theorem send_answers_both_messages:
  "snd (pipeline env model d uid sid txt p) =
     (201, Sent \<lparr>n_role = ''user'', n_text = txt, n_ts = TIMESTAMP\<rparr>
                \<lparr>n_role = ''assistant'',
                 n_text = replyText (generateReply env model (pipeline_context d uid sid txt p)),
                 n_ts = TIMESTAMP\<rparr>)
   \<and> generateReply env model (pipeline_context d uid sid txt p) \<noteq> Rejected
   \<and> replyText (generateReply env model (pipeline_context d uid sid txt p)) \<noteq> []
   \<and> (model (prompt env (pipeline_context d uid sid txt p)) = Rejected \<longrightarrow>
        replyText (generateReply env model (pipeline_context d uid sid txt p)) = gemini_fallback)
   \<and> (txt \<noteq> [] \<longrightarrow>
        sendMessage env model d uid sid (Some (JStr txt)) p = pipeline env model d uid sid txt p)"
proof -
  have a: "snd (pipeline env model d uid sid txt p) =
     (201, Sent \<lparr>n_role = ''user'', n_text = txt, n_ts = TIMESTAMP\<rparr>
                \<lparr>n_role = ''assistant'',
                 n_text = replyText (generateReply env model (pipeline_context d uid sid txt p)),
                 n_ts = TIMESTAMP\<rparr>)"
    by (simp add: pipeline_def Let_def userMsg_def aiMsg_def)
  have b: "generateReply env model (pipeline_context d uid sid txt p) \<noteq> Rejected"
    using generateReply_resolves [of env model "pipeline_context d uid sid txt p"] by auto
  have c: "replyText (generateReply env model (pipeline_context d uid sid txt p)) \<noteq> []"
    by (rule replyText_not_empty)
  have e: "model (prompt env (pipeline_context d uid sid txt p)) = Rejected \<longrightarrow>
        replyText (generateReply env model (pipeline_context d uid sid txt p)) = gemini_fallback"
    by (simp add: generateReply_def replyText_def gemini_fallback_def warning_sign_def)
  have f: "txt \<noteq> [] \<longrightarrow>
        sendMessage env model d uid sid (Some (JStr txt)) p = pipeline env model d uid sid txt p"
    by (simp add: sendMessage_def)
  from a b c e f show ?thesis by blast
qed

text \<open>A generator that always fails: the request is answered 201 with the fallback text.\<close>

theorem send_answers_both_messages_witness:
  "sendMessage None (\<lambda>q. Rejected) (\<lambda>u. []) ''u'' ''s'' (Some (JStr ''hi''))
      \<lparr>userKey = ''k1'', userTime = 1, aiKey = ''k2'', aiTime = 2, metaTime = 3\<rparr>
   = (fst (pipeline None (\<lambda>q. Rejected) (\<lambda>u. []) ''u'' ''s'' ''hi''
             \<lparr>userKey = ''k1'', userTime = 1, aiKey = ''k2'', aiTime = 2, metaTime = 3\<rparr>),
      (201, Sent \<lparr>n_role = ''user'', n_text = ''hi'', n_ts = TIMESTAMP\<rparr>
                 \<lparr>n_role = ''assistant'', n_text = gemini_fallback, n_ts = TIMESTAMP\<rparr>))"
  using send_answers_both_messages
    [of None "\<lambda>q. Rejected" "\<lambda>u. []" "''u''" "''s''" "''hi''"
        "\<lparr>userKey = ''k1'', userTime = 1, aiKey = ''k2'', aiTime = 2, metaTime = 3\<rparr>"]
  by (simp add: prod_eq_iff)

section \<open>Claims about the filter of the windowed read\<close>

text \<open>
  Claim C4, as stated: a message is left out of the context iff it lacks both
  \<^verbatim>\<open>role\<close> and \<^verbatim>\<open>text\<close>, and one that has either is kept. It fails. A stored message
  with a role and no text is left out, and so is one with a text and no role: in both
  cases the context is the new message alone.
\<close>

theorem one_field_is_dropped:
  "read_history [(''k1'', \<lparr>m_role = Some ''assistant'', m_text = None, m_ts = Some 1\<rparr>)] ''hi''
     = [\<lparr>h_role = ''user'', h_text = ''hi''\<rparr>]
   \<and> read_history [(''k1'', \<lparr>m_role = None, m_text = Some ''hello'', m_ts = Some 1\<rparr>)] ''hi''
     = [\<lparr>h_role = ''user'', h_text = ''hi''\<rparr>]"
  by (simp add: read_history_def limitToLast_def)

text \<open>
  Claim C4, amended. For every windowed read and every message \<open>m\<close> in it, the message
  is kept iff it has both a role and a text that are not empty, and it is left out
  when either is missing or empty. Kept, it adds exactly the entry with its role and
  text, at its place between what the messages before and after it add.
\<close>

theorem kept_with_role_and_text:
  assumes "limitToLast 20 msgs = before @ (k, m) # after"
  shows "read_history msgs txt =
           collect (map snd before) []
           @ (if truthy_str (m_role m) \<and> truthy_str (m_text m)
              then [\<lparr>h_role = the (m_role m), h_text = the (m_text m)\<rparr>] else [])
           @ collect (map snd after) []
           @ [\<lparr>h_role = ''user'', h_text = txt\<rparr>]"
proof -
  have "collect (map snd (before @ (k, m) # after)) [] =
          collect (map snd before) [] @ collect [m] [] @ collect (map snd after) []"
    using collect_append [of "map snd before" "m # map snd after"] collect_Cons [of m "map snd after"]
    by simp
  then show ?thesis
    unfolding read_history_collect assms collect_one by simp
qed

theorem kept_with_role_and_text_witness:
  "read_history
     [(''k1'', \<lparr>m_role = Some ''assistant'', m_text = None, m_ts = Some 1\<rparr>),
      (''k2'', \<lparr>m_role = Some ''assistant'', m_text = Some ''yes'', m_ts = Some 2\<rparr>),
      (''k3'', \<lparr>m_role = None, m_text = Some ''lost'', m_ts = Some 3\<rparr>)]
     ''hi''
   = [\<lparr>h_role = ''assistant'', h_text = ''yes''\<rparr>, \<lparr>h_role = ''user'', h_text = ''hi''\<rparr>]"
  using kept_with_role_and_text
    [of "[(''k1'', \<lparr>m_role = Some ''assistant'', m_text = None, m_ts = Some 1\<rparr>),
          (''k2'', \<lparr>m_role = Some ''assistant'', m_text = Some ''yes'', m_ts = Some 2\<rparr>),
          (''k3'', \<lparr>m_role = None, m_text = Some ''lost'', m_ts = Some 3\<rparr>)]"
        "[(''k1'', \<lparr>m_role = Some ''assistant'', m_text = None, m_ts = Some 1\<rparr>)]"
        "''k2''" "\<lparr>m_role = Some ''assistant'', m_text = Some ''yes'', m_ts = Some 2\<rparr>"
        "[(''k3'', \<lparr>m_role = None, m_text = Some ''lost'', m_ts = Some 3\<rparr>)]"
        "''hi''"]
  by (simp add: limitToLast_def)

section \<open>Claims about renaming a session\<close>

text \<open>
  Claim C5, as stated: renaming a session that the user's store does not hold succeeds
  and leaves the store as it was. It fails. On the empty database the request is
  answered 200 and the store then holds a session \<^verbatim>\<open>ghost\<close> whose \<^verbatim>\<open>meta\<close> has a title
  and an \<^verbatim>\<open>updatedAt\<close> but no \<^verbatim>\<open>createdAt\<close>.
\<close>

theorem rename_of_absent_session_changes_store:
  "snd (renameSession (\<lambda>u. []) ''u'' ''ghost'' (Some (JStr ''t'')) 7) = (200, Ok)
   \<and> fst (renameSession (\<lambda>u. []) ''u'' ''ghost'' (Some (JStr ''t'')) 7) ''u'' =
       [(''ghost'', \<lparr>s_meta = Some \<lparr>title = Some (JStr ''t''), createdAt = None, updatedAt = Some 7\<rparr>,
                   s_messages = []\<rparr>)]
   \<and> fst (renameSession (\<lambda>u. []) ''u'' ''ghost'' (Some (JStr ''t'')) 7) \<noteq> (\<lambda>u. [])"
  by (simp add: renameSession_def update_meta_def child_def no_session_def fun_eq_iff
      put_child_Nil)

text \<open>
  Claim C5, amended. For every user and every session id that the user's store does not
  hold, \<open>renameSession\<close> with a non-empty title answers 200 and leaves every session
  of the store as it was, and it adds a record under that id whose \<^verbatim>\<open>meta\<close> holds the
  title and \<^verbatim>\<open>updatedAt\<close> only, with no \<^verbatim>\<open>createdAt\<close> and no messages. The store of
  the user is then the sessions it held and the new record, and the stores of other
  users are untouched.
\<close>

theorem rename_of_absent_session_creates_it:
  assumes "sid \<notin> fst ` set (d uid)" and "truthy req_title"
  shows "\<exists>d'. renameSession d uid sid req_title now = (d', (200, Ok))
           \<and> map_of (d' uid) =
               (map_of (d uid))(sid \<mapsto> \<lparr>s_meta = Some \<lparr>title = req_title, createdAt = None,
                                                        updatedAt = Some now\<rparr>,
                                          s_messages = []\<rparr>)
           \<and> mset (d' uid) =
               add_mset (sid, \<lparr>s_meta = Some \<lparr>title = req_title, createdAt = None,
                                              updatedAt = Some now\<rparr>,
                                s_messages = []\<rparr>) (mset (d uid))
           \<and> remove_child sid (d' uid) = d uid
           \<and> (\<forall>u. u \<noteq> uid \<longrightarrow> d' u = d u)"
proof -
  let ?new = "\<lparr>s_meta = Some \<lparr>title = req_title, createdAt = None, updatedAt = Some now\<rparr>,
               s_messages = []\<rparr>"
  let ?d' = "d(uid := insert_child sid ?new (d uid))"
  have none: "map_of (d uid) sid = None"
    using assms(1) by (simp add: map_of_eq_None_iff)
  then have "child sid (d uid) = no_session"
    by (simp add: child_def)
  then have "renameSession d uid sid req_title now = (?d', (200, Ok))"
    using assms
    by (simp add: renameSession_def update_meta_def Let_def no_session_def put_child_fresh)
  moreover have "map_of (?d' uid) = (map_of (d uid))(sid \<mapsto> ?new)"
    using none by (simp add: map_of_insert_child)
  moreover have "mset (?d' uid) = add_mset (sid, ?new) (mset (d uid))"
    by (simp add: mset_insert_child)
  moreover have "remove_child sid (?d' uid) = d uid"
    using assms(1) by (simp add: remove_insert_child)
  moreover have "\<forall>u. u \<noteq> uid \<longrightarrow> ?d' u = d u"
    by simp
  ultimately show ?thesis by blast
qed

text \<open>
  A store that holds the session \<^verbatim>\<open>z\<close>; the session \<^verbatim>\<open>a\<close> is renamed. The new record
  is listed before \<^verbatim>\<open>z\<close>, which is as it was.
\<close>

theorem rename_of_absent_session_creates_it_witness:
  "renameSession
     ((\<lambda>u. [])(''u'' := [(''z'', \<lparr>s_meta = Some \<lparr>title = Some (JStr ''one''), createdAt = Some 1,
                                               updatedAt = Some 2\<rparr>, s_messages = []\<rparr>)]))
     ''u'' ''a'' (Some (JStr ''two'')) 9
   = (((\<lambda>u. [])(''u'' := [(''z'', \<lparr>s_meta = Some \<lparr>title = Some (JStr ''one''), createdAt = Some 1,
                                               updatedAt = Some 2\<rparr>, s_messages = []\<rparr>)]))
       (''u'' := [(''a'', \<lparr>s_meta = Some \<lparr>title = Some (JStr ''two''), createdAt = None,
                                           updatedAt = Some 9\<rparr>, s_messages = []\<rparr>),
                 (''z'', \<lparr>s_meta = Some \<lparr>title = Some (JStr ''one''), createdAt = Some 1,
                                           updatedAt = Some 2\<rparr>, s_messages = []\<rparr>)]),
      (200, Ok))"
  using rename_of_absent_session_creates_it
    [of "''a''"
        "(\<lambda>u. [])(''u'' := [(''z'', \<lparr>s_meta = Some \<lparr>title = Some (JStr ''one''), createdAt = Some 1,
                                               updatedAt = Some 2\<rparr>, s_messages = []\<rparr>)])"
        "''u''" "Some (JStr ''two'')" 9]
  by (simp add: renameSession_def update_meta_def Let_def child_def no_session_def put_child_def
      nameCompare_def tryParseInt_def is_digit_def)

text \<open>
  Claim C6. For every rename request whose title is missing or the empty string, the
  answer is 400 with the error \<^verbatim>\<open>title required\<close> and the database is returned as it
  was: the title and \<^verbatim>\<open>updatedAt\<close> of every session are unchanged.
\<close>

theorem rename_without_title_changes_nothing:
  assumes "req_title = None \<or> req_title = Some (JStr [])"
  shows "renameSession d uid sid req_title now = (d, (400, Error ''title required''))"
  using assms by (auto simp: renameSession_def)

theorem rename_without_title_changes_nothing_witness:
  "renameSession
     ((\<lambda>u. [])(''u'' := [(''a'', \<lparr>s_meta = Some \<lparr>title = Some (JStr ''one''), createdAt = Some 1,
                                               updatedAt = Some 2\<rparr>, s_messages = []\<rparr>)]))
     ''u'' ''a'' (Some (JStr '''')) 9
   = ((\<lambda>u. [])(''u'' := [(''a'', \<lparr>s_meta = Some \<lparr>title = Some (JStr ''one''), createdAt = Some 1,
                                               updatedAt = Some 2\<rparr>, s_messages = []\<rparr>)]),
      (400, Error ''title required''))"
  using rename_without_title_changes_nothing
    [of "Some (JStr '''')"
        "(\<lambda>u. [])(''u'' := [(''a'', \<lparr>s_meta = Some \<lparr>title = Some (JStr ''one''), createdAt = Some 1,
                                               updatedAt = Some 2\<rparr>, s_messages = []\<rparr>)])"
        "''u''" "''a''" 9]
  by simp

section \<open>Claims about listing sessions and messages\<close>

text \<open>
  Claim C7. For every user, \<open>listSessions\<close> answers 200 with rows made from that user's
  sessions only. The rows are the first \<open>min 200 n\<close> of an arrangement of all \<open>n\<close> rows of
  the user in which \<^verbatim>\<open>updatedAt\<close> never increases, a missing \<^verbatim>\<open>updatedAt\<close> counting as 0:
  \<open>rest\<close> is what the truncation cut off. The database is not changed.
\<close>

theorem listSessions_recent_first:
  "\<exists>out rest. listSessions d uid = (d, (200, SessionList out))
     \<and> length out = min 200 (length (d uid))
     \<and> mset (out @ rest) = mset (map session_row_of (d uid))
     \<and> sorted_wrt (\<lambda>a b. or_zero (sr_updatedAt b) \<le> or_zero (sr_updatedAt a)) (out @ rest)"
proof -
  let ?rows = "map session_row_of (d uid)"
  let ?all = "js_sort by_updatedAt_desc ?rows"
  have eq: "?all = sort_key (\<lambda>r. - or_zero (sr_updatedAt r)) ?rows"
    by (rule sessions_sorted_as_library)
  have m: "mset (take 200 ?all @ drop 200 ?all) = mset ?rows"
    unfolding eq by simp
  have l: "length (take 200 ?all) = min 200 (length (d uid))"
    unfolding eq by simp
  have "sorted (map (\<lambda>r. - or_zero (sr_updatedAt r)) ?all)"
    unfolding eq by (rule sorted_sort_key)
  then have "sorted_wrt (\<lambda>a b. or_zero (sr_updatedAt b) \<le> or_zero (sr_updatedAt a)) ?all"
    by (simp add: sorted_wrt_key)
  then have s: "sorted_wrt (\<lambda>a b. or_zero (sr_updatedAt b) \<le> or_zero (sr_updatedAt a))
                  (take 200 ?all @ drop 200 ?all)"
    by simp
  have "listSessions d uid = (d, (200, SessionList (take 200 ?all)))"
    by (simp add: listSessions_def)
  with m l s show ?thesis by blast
qed

text \<open>
  Three sessions of one user, the second without \<^verbatim>\<open>meta\<close>: the newest comes first and the
  one without \<^verbatim>\<open>updatedAt\<close> last. A second user's session is not listed.
\<close>

theorem listSessions_recent_first_witness:
  "snd (snd (listSessions
     ((\<lambda>u. [])
        (''u'' := [(''a'', \<lparr>s_meta = Some \<lparr>title = Some (JStr ''one''), createdAt = Some 1,
                                         updatedAt = Some 2\<rparr>, s_messages = []\<rparr>),
                  (''b'', \<lparr>s_meta = None, s_messages = []\<rparr>),
                  (''c'', \<lparr>s_meta = Some \<lparr>title = Some (JStr ''three''), createdAt = Some 3,
                                         updatedAt = Some 9\<rparr>, s_messages = []\<rparr>)],
         ''v'' := [(''z'', \<lparr>s_meta = Some \<lparr>title = Some (JStr ''other''), createdAt = Some 4,
                                         updatedAt = Some 7\<rparr>, s_messages = []\<rparr>)]))
     ''u''))
   = SessionList
       [\<lparr>sr_id = ''c'', sr_title = Some (JStr ''three''), sr_createdAt = Some 3,
          sr_updatedAt = Some 9\<rparr>,
        \<lparr>sr_id = ''a'', sr_title = Some (JStr ''one''), sr_createdAt = Some 1,
          sr_updatedAt = Some 2\<rparr>,
        \<lparr>sr_id = ''b'', sr_title = None, sr_createdAt = None, sr_updatedAt = None\<rparr>]"
  using listSessions_recent_first
    [of "(\<lambda>u. [])
        (''u'' := [(''a'', \<lparr>s_meta = Some \<lparr>title = Some (JStr ''one''), createdAt = Some 1,
                                         updatedAt = Some 2\<rparr>, s_messages = []\<rparr>),
                  (''b'', \<lparr>s_meta = None, s_messages = []\<rparr>),
                  (''c'', \<lparr>s_meta = Some \<lparr>title = Some (JStr ''three''), createdAt = Some 3,
                                         updatedAt = Some 9\<rparr>, s_messages = []\<rparr>)],
         ''v'' := [(''z'', \<lparr>s_meta = Some \<lparr>title = Some (JStr ''other''), createdAt = Some 4,
                                         updatedAt = Some 7\<rparr>, s_messages = []\<rparr>)])"
        "''u''"]
  by (simp add: listSessions_def js_sort_def by_updatedAt_desc_def session_row_of_def)

text \<open>
  Claim C8. For every session, \<open>listMessages\<close> answers 200 with one row per stored
  message of that session and no other row (the rows are a permutation of the stored
  messages, each with its key as \<^verbatim>\<open>id\<close>), in an order in which \<^verbatim>\<open>ts\<close> never decreases, a
  missing \<^verbatim>\<open>ts\<close> counting as 0. Nothing is cut off: the answer is as long as the log.
\<close>

theorem listMessages_full_sorted:
  "\<exists>out. listMessages d uid sid = (d, (200, MessageList out))
     \<and> mset out = mset (map message_row_of (s_messages (child sid (d uid))))
     \<and> length out = length (s_messages (child sid (d uid)))
     \<and> sorted_wrt (\<lambda>a b. or_zero (r_ts a) \<le> or_zero (r_ts b)) out"
proof -
  let ?rows = "map message_row_of (s_messages (child sid (d uid)))"
  let ?out = "js_sort by_ts_asc ?rows"
  have eq: "?out = sort_key (\<lambda>r. or_zero (r_ts r)) ?rows"
    by (rule messages_sorted_as_library)
  have m: "mset ?out = mset ?rows"
    unfolding eq by simp
  have l: "length ?out = length (s_messages (child sid (d uid)))"
    unfolding eq by simp
  have "sorted (map (\<lambda>r. or_zero (r_ts r)) ?out)"
    unfolding eq by (rule sorted_sort_key)
  then have s: "sorted_wrt (\<lambda>a b. or_zero (r_ts a) \<le> or_zero (r_ts b)) ?out"
    by (simp add: sorted_wrt_key)
  have "listMessages d uid sid = (d, (200, MessageList ?out))"
    by (simp add: listMessages_def)
  with m l s show ?thesis by blast
qed

text \<open>Three stored messages, the second without \<^verbatim>\<open>ts\<close>: it is listed first.\<close>

theorem listMessages_full_sorted_witness:
  "snd (snd (listMessages
     ((\<lambda>u. [])(''u'' := [(''s'', \<lparr>s_meta = None, s_messages =
        [(''k1'', \<lparr>m_role = Some ''user'', m_text = Some ''a'', m_ts = Some 5\<rparr>),
         (''k2'', \<lparr>m_role = Some ''assistant'', m_text = Some ''b'', m_ts = None\<rparr>),
         (''k3'', \<lparr>m_role = Some ''user'', m_text = Some ''c'', m_ts = Some 3\<rparr>)]\<rparr>)]))
     ''u'' ''s''))
   = MessageList
       [\<lparr>r_id = ''k2'', r_role = Some ''assistant'', r_text = Some ''b'', r_ts = None\<rparr>,
        \<lparr>r_id = ''k3'', r_role = Some ''user'', r_text = Some ''c'', r_ts = Some 3\<rparr>,
        \<lparr>r_id = ''k1'', r_role = Some ''user'', r_text = Some ''a'', r_ts = Some 5\<rparr>]"
  using listMessages_full_sorted
    [of "(\<lambda>u. [])(''u'' := [(''s'', \<lparr>s_meta = None, s_messages =
        [(''k1'', \<lparr>m_role = Some ''user'', m_text = Some ''a'', m_ts = Some 5\<rparr>),
         (''k2'', \<lparr>m_role = Some ''assistant'', m_text = Some ''b'', m_ts = None\<rparr>),
         (''k3'', \<lparr>m_role = Some ''user'', m_text = Some ''c'', m_ts = Some 3\<rparr>)]\<rparr>)])"
        "''u''" "''s''"]
  by (simp add: listMessages_def child_def js_sort_def by_ts_asc_def message_row_of_def)

section \<open>Claims about the generator's input and the shape of the response\<close>

text \<open>
  Claim C9. For every context that the handler assembles, the text sent to the
  generator is the system instruction, an empty line, the lines of the messages that are
  not system messages joined by line feeds, a line feed and the cue \<^verbatim>\<open>Assistant:\<close>. The
  system instruction is the text of the first context message with role \<^verbatim>\<open>system\<close>, and
  the process-wide default (\<^verbatim>\<open>SYSTEM_PROMPT\<close>, or the built-in text) when there is none;
  a line is \<^verbatim>\<open>Assistant: <text>\<close> for the role \<^verbatim>\<open>assistant\<close> and \<^verbatim>\<open>User: <text>\<close> for any
  other role.
\<close>

theorem generator_input_format:
  "prompt env (pipeline_context d uid sid txt p) =
     spec_prompt (sysPrompt env) (pipeline_context d uid sid txt p)"
  unfolding pipeline_context_def Let_def
  by (rule prompt_spec) (rule read_history_system_texts)

text \<open>A session that holds a system message, a question and an answer.\<close>

theorem generator_input_format_witness:
  "prompt None (pipeline_context
     ((\<lambda>u. [])(''u'' := [(''s'', \<lparr>s_meta = None, s_messages =
        [(''k0'', \<lparr>m_role = Some ''system'', m_text = Some ''Be brief.'', m_ts = Some 0\<rparr>),
         (''k1'', \<lparr>m_role = Some ''user'', m_text = Some ''a'', m_ts = Some 1\<rparr>),
         (''k2'', \<lparr>m_role = Some ''assistant'', m_text = Some ''b'', m_ts = Some 2\<rparr>)]\<rparr>)]))
     ''u'' ''s'' ''c''
     \<lparr>userKey = ''k3'', userTime = 3, aiKey = ''k4'', aiTime = 4, metaTime = 5\<rparr>)
   = ''Be brief.'' @ newline @ newline @ ''User: a'' @ newline @ ''Assistant: b'' @ newline
     @ ''User: c'' @ newline @ ''User: c'' @ newline @ ''Assistant:''"
  using generator_input_format
    [of None
        "(\<lambda>u. [])(''u'' := [(''s'', \<lparr>s_meta = None, s_messages =
        [(''k0'', \<lparr>m_role = Some ''system'', m_text = Some ''Be brief.'', m_ts = Some 0\<rparr>),
         (''k1'', \<lparr>m_role = Some ''user'', m_text = Some ''a'', m_ts = Some 1\<rparr>),
         (''k2'', \<lparr>m_role = Some ''assistant'', m_text = Some ''b'', m_ts = Some 2\<rparr>)]\<rparr>)])"
        "''u''" "''s''" "''c''"
        "\<lparr>userKey = ''k3'', userTime = 3, aiKey = ''k4'', aiTime = 4, metaTime = 5\<rparr>"]
  by (simp add: pipeline_context_collect child_def limitToLast_def spec_prompt_def stored_def
      userMsg_def put_child_def nameCompare_def tryParseInt_def is_digit_def)

text \<open>
  Claim C10. For every request with a non-empty text (the two pushed keys distinct),
  the answer is 201 and both messages in its body carry the timestamp placeholder as
  \<^verbatim>\<open>ts\<close>; a \<open>new_message\<close> has no \<^verbatim>\<open>id\<close>. \<open>listMessages\<close> on the database the request
  leaves behind returns the same two messages as rows that carry their pushed key as
  \<^verbatim>\<open>id\<close> and, as \<^verbatim>\<open>ts\<close>, the number the database assigned at the write.
\<close>

theorem response_messages_differ_from_listed:
  assumes "txt \<noteq> []" and "userKey p \<noteq> aiKey p"
  shows "\<exists>d' reply rows.
           sendMessage env model d uid sid (Some (JStr txt)) p =
             (d', (201, Sent \<lparr>n_role = ''user'', n_text = txt, n_ts = TIMESTAMP\<rparr>
                             \<lparr>n_role = ''assistant'', n_text = reply, n_ts = TIMESTAMP\<rparr>))
           \<and> listMessages d' uid sid = (d', (200, MessageList rows))
           \<and> \<lparr>r_id = userKey p, r_role = Some ''user'', r_text = Some txt,
               r_ts = Some (userTime p)\<rparr> \<in> set rows
           \<and> \<lparr>r_id = aiKey p, r_role = Some ''assistant'', r_text = Some reply,
               r_ts = Some (aiTime p)\<rparr> \<in> set rows"
proof -
  let ?reply = "replyText (generateReply env model (pipeline_context d uid sid txt p))"
  let ?d' = "fst (pipeline env model d uid sid txt p)"
  let ?msgs = "s_messages (child sid (?d' uid))"
  let ?rows = "js_sort by_ts_asc (map message_row_of ?msgs)"
  have sent: "sendMessage env model d uid sid (Some (JStr txt)) p =
             (?d', (201, Sent \<lparr>n_role = ''user'', n_text = txt, n_ts = TIMESTAMP\<rparr>
                             \<lparr>n_role = ''assistant'', n_text = ?reply, n_ts = TIMESTAMP\<rparr>))"
    using assms(1) by (simp add: sendMessage_def pipeline_def Let_def userMsg_def aiMsg_def)
  have listed: "listMessages ?d' uid sid = (?d', (200, MessageList ?rows))"
    by (simp add: listMessages_def)
  have u: "(userKey p, stored (userTime p) (userMsg txt)) \<in> set ?msgs"
    unfolding messages_after_pipeline
    using assms(2) by (intro put_child_other put_child_same)
  have a: "(aiKey p, stored (aiTime p) (aiMsg ?reply)) \<in> set ?msgs"
    unfolding messages_after_pipeline by (rule put_child_same)
  have "message_row_of (userKey p, stored (userTime p) (userMsg txt)) \<in> set ?rows"
    unfolding set_js_sort_by_ts using u by (simp only: set_map) (rule imageI)
  then have ru: "\<lparr>r_id = userKey p, r_role = Some ''user'', r_text = Some txt,
               r_ts = Some (userTime p)\<rparr> \<in> set ?rows"
    by (simp add: message_row_of_def stored_def userMsg_def)
  have "message_row_of (aiKey p, stored (aiTime p) (aiMsg ?reply)) \<in> set ?rows"
    unfolding set_js_sort_by_ts using a by (simp only: set_map) (rule imageI)
  then have ra: "\<lparr>r_id = aiKey p, r_role = Some ''assistant'', r_text = Some ?reply,
               r_ts = Some (aiTime p)\<rparr> \<in> set ?rows"
    by (simp add: message_row_of_def stored_def aiMsg_def)
  from sent listed ru ra show ?thesis by blast
qed

text \<open>
  The first request of a session: the body carries the placeholder twice, the database
  holds the times 1 and 2.
\<close>

theorem response_messages_differ_from_listed_witness:
  "sendMessage None (\<lambda>q. Resolved ''yo'') (\<lambda>u. []) ''u'' ''s'' (Some (JStr ''hi''))
      \<lparr>userKey = ''k1'', userTime = 1, aiKey = ''k2'', aiTime = 2, metaTime = 3\<rparr>
   = ((\<lambda>u. [])(''u'' := [(''s'', \<lparr>s_meta = Some \<lparr>title = None, createdAt = None, updatedAt = Some 3\<rparr>,
          s_messages =
            [(''k1'', \<lparr>m_role = Some ''user'', m_text = Some ''hi'', m_ts = Some 1\<rparr>),
             (''k2'', \<lparr>m_role = Some ''assistant'', m_text = Some ''yo'', m_ts = Some 2\<rparr>)]\<rparr>)]),
      (201, Sent \<lparr>n_role = ''user'', n_text = ''hi'', n_ts = TIMESTAMP\<rparr>
                 \<lparr>n_role = ''assistant'', n_text = ''yo'', n_ts = TIMESTAMP\<rparr>))"
  using response_messages_differ_from_listed
    [of "''hi''" "\<lparr>userKey = ''k1'', userTime = 1, aiKey = ''k2'', aiTime = 2, metaTime = 3\<rparr>"
        None "\<lambda>q. Resolved ''yo''" "\<lambda>u. []" "''u''" "''s''"]
  by (simp add: sendMessage_def pipeline_def pipeline_context_def Let_def push_message_def
      update_meta_def child_def no_session_def stored_def userMsg_def aiMsg_def replyText_def
      generateReply_def fun_eq_iff put_child_def nameCompare_def tryParseInt_def is_digit_def)

end
